theory Spec2Isabelle
  imports Complex_Main
begin

section \<open>JavaScript values\<close>

text \<open>
  The frontend validates event envelopes with a zod schema
  (\<^verbatim>\<open>frontend/src/contracts/eventEnvelope.ts\<close>).  The schema receives an unknown
  JavaScript value, as decoded from JSON.  Numbers are the finite ones, modelled as
  rationals (every finite double is a rational); \<open>NaN\<close> and the infinities are
  outside the model.  Objects are association lists in property order, and a property
  that is absent reads as \<open>undefined\<close>.
\<close>

datatype jsvalue =
    JUndefined
  | JNull
  | JBool bool
  | JNumber rat
  | JString string
  | JArray "jsvalue list"
  | JObject "(string \<times> jsvalue) list"

definition get_prop :: "(string \<times> jsvalue) list \<Rightarrow> string \<Rightarrow> jsvalue" where
  "get_prop kvs k = (case map_of kvs k of None \<Rightarrow> JUndefined | Some v \<Rightarrow> v)"

section \<open>The zod combinators used by the schema\<close>

text \<open>
  A zod parse either returns the parsed value or fails with a ZodError that lists the
  issues found, each with the path of the offending datum.  Only the combinators that
  \<^verbatim>\<open>EventEnvelopeSchema\<close> uses are modelled.
\<close>

datatype issue_code = Invalid_type | Invalid_enum_value | Too_small

datatype path_elem = Key string | Index nat

type_synonym issue = "path_elem list \<times> issue_code"

type_synonym 'a parsed = "issue list + 'a"

definition success :: "'a parsed \<Rightarrow> bool" where
  "success r = (case r of Inl _ \<Rightarrow> False | Inr _ \<Rightarrow> True)"

definition issues_of :: "'a parsed \<Rightarrow> issue list" where
  "issues_of r = (case r of Inl es \<Rightarrow> es | Inr _ \<Rightarrow> [])"

definition at_path :: "path_elem \<Rightarrow> 'a parsed \<Rightarrow> 'a parsed" where
  "at_path p r = (case r of Inl es \<Rightarrow> Inl (map (\<lambda>(ps, c). (p # ps, c)) es) | Inr x \<Rightarrow> Inr x)"

text \<open>\<^verbatim>\<open>z.string()\<close>\<close>

definition z_string :: "jsvalue \<Rightarrow> string parsed" where
  "z_string v = (case v of JString s \<Rightarrow> Inr s | _ \<Rightarrow> Inl [([], Invalid_type)])"

text \<open>\<^verbatim>\<open>z.enum([...])\<close>: a string that is one of the listed literals.\<close>

definition z_enum :: "string list \<Rightarrow> jsvalue \<Rightarrow> string parsed" where
  "z_enum opts v =
     (case v of
        JString s \<Rightarrow> if s \<in> set opts then Inr s else Inl [([], Invalid_enum_value)]
      | _ \<Rightarrow> Inl [([], Invalid_type)])"

text \<open>
  \<^verbatim>\<open>z.number()\<close> followed by checks.  The checks run in the order they were chained
  and each failing check adds its own issue.
\<close>

definition is_integer :: "rat \<Rightarrow> bool" where
  "is_integer x = (of_int \<lfloor>x\<rfloor> = x)"

datatype number_check = Int_check | Nonnegative_check

fun run_check :: "number_check \<Rightarrow> rat \<Rightarrow> issue list" where
  "run_check Int_check x = (if is_integer x then [] else [([], Invalid_type)])"
| "run_check Nonnegative_check x = (if x < 0 then [([], Too_small)] else [])"

definition z_number :: "number_check list \<Rightarrow> jsvalue \<Rightarrow> rat parsed" where
  "z_number checks v =
     (case v of
        JNumber x \<Rightarrow>
          (let es = concat (map (\<lambda>c. run_check c x) checks)
           in if es = [] then Inr x else Inl es)
      | _ \<Rightarrow> Inl [([], Invalid_type)])"

text \<open>\<^verbatim>\<open>.default(d)\<close>: an undefined input is replaced by \<open>d\<close> before the inner schema runs.\<close>

definition z_default :: "jsvalue \<Rightarrow> (jsvalue \<Rightarrow> 'a parsed) \<Rightarrow> jsvalue \<Rightarrow> 'a parsed" where
  "z_default d s v = s (if v = JUndefined then d else v)"

text \<open>\<^verbatim>\<open>.nullable()\<close> and \<^verbatim>\<open>.optional()\<close>: \<open>null\<close> (resp. \<open>undefined\<close>) passes through.\<close>

definition z_nullable :: "(jsvalue \<Rightarrow> 'a parsed) \<Rightarrow> jsvalue \<Rightarrow> 'a option parsed" where
  "z_nullable s v = (if v = JNull then Inr None else map_sum id Some (s v))"

definition z_optional :: "(jsvalue \<Rightarrow> 'a parsed) \<Rightarrow> jsvalue \<Rightarrow> 'a option parsed" where
  "z_optional s v = (if v = JUndefined then Inr None else map_sum id Some (s v))"

text \<open>\<^verbatim>\<open>z.array(s)\<close>: every element is parsed; all issues are collected, by index.\<close>

fun z_array_items :: "(jsvalue \<Rightarrow> 'a parsed) \<Rightarrow> nat \<Rightarrow> jsvalue list \<Rightarrow> 'a list parsed" where
  "z_array_items s i [] = Inr []"
| "z_array_items s i (x # xs) =
     (case (at_path (Index i) (s x), z_array_items s (Suc i) xs) of
        (Inr y, Inr ys) \<Rightarrow> Inr (y # ys)
      | (Inl es, Inr _) \<Rightarrow> Inl es
      | (Inr _, Inl es') \<Rightarrow> Inl es'
      | (Inl es, Inl es') \<Rightarrow> Inl (es @ es'))"

definition z_array :: "(jsvalue \<Rightarrow> 'a parsed) \<Rightarrow> jsvalue \<Rightarrow> 'a list parsed" where
  "z_array s v = (case v of JArray xs \<Rightarrow> z_array_items s 0 xs | _ \<Rightarrow> Inl [([], Invalid_type)])"

text \<open>\<^verbatim>\<open>z.record(z.unknown())\<close>: any object; its values are not inspected.\<close>

definition z_record_unknown :: "jsvalue \<Rightarrow> (string \<times> jsvalue) list parsed" where
  "z_record_unknown v = (case v of JObject kvs \<Rightarrow> Inr kvs | _ \<Rightarrow> Inl [([], Invalid_type)])"

text \<open>One key of a \<^verbatim>\<open>z.object\<close> shape: the property is read and parsed at its path.\<close>

definition field :: "string \<Rightarrow> (jsvalue \<Rightarrow> 'a parsed) \<Rightarrow> (string \<times> jsvalue) list \<Rightarrow> 'a parsed" where
  "field k s kvs = at_path (Key k) (s (get_prop kvs k))"

section \<open>The event envelope schema\<close>

record EventEnvelope =
  schema_version :: string
  event_id :: string
  parent_event_id :: "string option option"
  session_id :: string
  trace_id :: string
  timestamp_utc :: string
  actor_id :: string
  actor_role :: string
  channel :: string
  event_type :: string
  payload :: "(string \<times> jsvalue) list"
  safety_flags :: "string list"
  token_in :: rat
  token_out :: rat
  latency_ms :: rat
  cost_usd :: rat

definition actor_roles :: "string list" where
  "actor_roles = [''PM'', ''LEAD'', ''DEV'', ''AUDITOR'', ''SYSTEM'', ''USER'']"

definition channels :: "string list" where
  "channels = [''GLOBAL'', ''LOCAL'', ''SYSTEM'', ''AUTOPROMPT'']"

definition count_schema :: "jsvalue \<Rightarrow> rat parsed" where
  "count_schema = z_default (JNumber 0) (z_number [Int_check, Nonnegative_check])"

definition cost_schema :: "jsvalue \<Rightarrow> rat parsed" where
  "cost_schema = z_default (JNumber 0) (z_number [Nonnegative_check])"

definition safety_flags_schema :: "jsvalue \<Rightarrow> string list parsed" where
  "safety_flags_schema = z_default (JArray []) (z_array z_string)"

definition parent_schema :: "jsvalue \<Rightarrow> string option option parsed" where
  "parent_schema = z_optional (z_nullable z_string)"

text \<open>
  \<^verbatim>\<open>EventEnvelopeSchema.parse\<close>.  A \<^verbatim>\<open>z.object\<close> rejects a non-object, parses every
  key of its shape (unknown keys are dropped), and fails with all the issues found.
\<close>

definition EventEnvelopeSchema :: "jsvalue \<Rightarrow> EventEnvelope parsed" where
  "EventEnvelopeSchema v =
     (case v of
        JObject kvs \<Rightarrow>
          (let r1 = field ''schema_version'' z_string kvs;
               r2 = field ''event_id'' z_string kvs;
               r3 = field ''parent_event_id'' parent_schema kvs;
               r4 = field ''session_id'' z_string kvs;
               r5 = field ''trace_id'' z_string kvs;
               r6 = field ''timestamp_utc'' z_string kvs;
               r7 = field ''actor_id'' z_string kvs;
               r8 = field ''actor_role'' (z_enum actor_roles) kvs;
               r9 = field ''channel'' (z_enum channels) kvs;
               r10 = field ''event_type'' z_string kvs;
               r11 = field ''payload'' z_record_unknown kvs;
               r12 = field ''safety_flags'' safety_flags_schema kvs;
               r13 = field ''token_in'' count_schema kvs;
               r14 = field ''token_out'' count_schema kvs;
               r15 = field ''latency_ms'' count_schema kvs;
               r16 = field ''cost_usd'' cost_schema kvs
           in if success r1 \<and> success r2 \<and> success r3 \<and> success r4 \<and> success r5 \<and> success r6 \<and> success r7 \<and> success r8 \<and> success r9
                 \<and> success r10 \<and> success r11 \<and> success r12 \<and> success r13 \<and> success r14 \<and> success r15 \<and> success r16
              then Inr \<lparr> schema_version = projr r1, event_id = projr r2,
                         parent_event_id = projr r3, session_id = projr r4,
                         trace_id = projr r5, timestamp_utc = projr r6,
                         actor_id = projr r7, actor_role = projr r8, channel = projr r9,
                         event_type = projr r10, payload = projr r11,
                         safety_flags = projr r12, token_in = projr r13,
                         token_out = projr r14, latency_ms = projr r15,
                         cost_usd = projr r16 \<rparr>
              else Inl (issues_of r1 @ issues_of r2 @ issues_of r3 @ issues_of r4
                        @ issues_of r5 @ issues_of r6 @ issues_of r7 @ issues_of r8
                        @ issues_of r9 @ issues_of r10 @ issues_of r11 @ issues_of r12
                        @ issues_of r13 @ issues_of r14 @ issues_of r15 @ issues_of r16))
      | _ \<Rightarrow> Inl [([], Invalid_type)])"

text \<open>The keys of the shape that carry neither \<^verbatim>\<open>.optional()\<close> nor \<^verbatim>\<open>.default(...)\<close>.\<close>

definition required_fields :: "string list" where
  "required_fields =
     [''schema_version'', ''event_id'', ''session_id'', ''trace_id'', ''timestamp_utc'',
      ''actor_id'', ''actor_role'', ''channel'', ''event_type'', ''payload'']"

definition missing_required :: "(string \<times> jsvalue) list \<Rightarrow> bool" where
  "missing_required kvs = list_ex (\<lambda>k. get_prop kvs k = JUndefined) required_fields"

text \<open>Run-time type tests on values (\<^verbatim>\<open>typeof\<close>, \<^verbatim>\<open>Array.isArray\<close>, \<^verbatim>\<open>Number.isInteger\<close>).\<close>

definition is_string :: "jsvalue \<Rightarrow> bool" where
  "is_string v = (case v of JString _ \<Rightarrow> True | _ \<Rightarrow> False)"

definition is_object :: "jsvalue \<Rightarrow> bool" where
  "is_object v = (case v of JObject _ \<Rightarrow> True | _ \<Rightarrow> False)"

definition is_string_array :: "jsvalue \<Rightarrow> bool" where
  "is_string_array v = (case v of JArray xs \<Rightarrow> list_all is_string xs | _ \<Rightarrow> False)"

definition is_nonneg_number :: "jsvalue \<Rightarrow> bool" where
  "is_nonneg_number v = (case v of JNumber x \<Rightarrow> 0 \<le> x | _ \<Rightarrow> False)"

definition is_nonneg_integer :: "jsvalue \<Rightarrow> bool" where
  "is_nonneg_integer v = (case v of JNumber x \<Rightarrow> is_integer x \<and> 0 \<le> x | _ \<Rightarrow> False)"

text \<open>The required keys whose schema is a plain \<^verbatim>\<open>z.string()\<close>.\<close>

definition string_fields :: "string list" where
  "string_fields =
     [''schema_version'', ''event_id'', ''session_id'', ''trace_id'', ''timestamp_utc'',
      ''actor_id'', ''event_type'']"

definition cost_perf_fields :: "string list" where
  "cost_perf_fields = [''token_in'', ''token_out'', ''latency_ms'', ''cost_usd'']"

text \<open>An object with some of its properties deleted.\<close>

definition without :: "string list \<Rightarrow> (string \<times> jsvalue) list \<Rightarrow> (string \<times> jsvalue) list" where
  "without ks kvs = filter (\<lambda>(k, v). k \<notin> set ks) kvs"

text \<open>A minimal envelope: the ten required properties and nothing else.\<close>

definition sample_envelope :: "(string \<times> jsvalue) list" where
  "sample_envelope =
     [(''schema_version'', JString ''1.0''),
      (''event_id'', JString ''evt_1''),
      (''session_id'', JString ''sess_123''),
      (''trace_id'', JString ''trace_1''),
      (''timestamp_utc'', JString ''2026-02-10T00:00:00Z''),
      (''actor_id'', JString ''agent_1''),
      (''actor_role'', JString ''DEV''),
      (''channel'', JString ''LOCAL''),
      (''event_type'', JString ''TASK_STARTED''),
      (''payload'', JObject [])]"

definition negative_token_envelope :: "(string \<times> jsvalue) list" where
  "negative_token_envelope = (''token_in'', JNumber (- 1)) # sample_envelope"

definition priced_envelope :: "(string \<times> jsvalue) list" where
  "priced_envelope =
     (''token_in'', JNumber 12) # (''latency_ms'', JNumber 250)
       # (''cost_usd'', JNumber (1 / 4)) # sample_envelope"

definition fractional_latency_envelope :: "(string \<times> jsvalue) list" where
  "fractional_latency_envelope =
     (''token_in'', JNumber 12) # (''latency_ms'', JNumber (3 / 2))
       # (''cost_usd'', JNumber (1 / 4)) # sample_envelope"

section \<open>The event ledger\<close>

text \<open>
  \<^verbatim>\<open>ReplayEvent\<close> of \<^verbatim>\<open>frontend/src/api/logs.ts\<close>: an envelope together with the
  sequence number the ledger gave it.
\<close>

record ReplayEvent = EventEnvelope +
  sequence :: nat

text \<open>
  Modelled from the spec: the state of the EventLedger, ``durable, append-only,
  per-session ordered store of event records'' (section 2): for each session id the
  records of that session, oldest first.  The backend that keeps it is not among the
  sources.
\<close>

type_synonym ledger = "string \<Rightarrow> ReplayEvent list"

definition empty_ledger :: ledger where
  "empty_ledger = (\<lambda>sid. [])"

text \<open>
  Modelled from the spec: the EventLedger operation \<^verbatim>\<open>append(envelope) -> sequence\<close> of
  section 4.1 belongs to the backend, which is not among the sources.  It
  ``fails with ValidationError if required fields are missing or
  session_id/actor_role/channel are outside the closed sets; otherwise assigns the next
  sequence for that session and persists durably before returning''.  Validation is the
  envelope schema above; a session's first record has sequence 0 (section 6), so the
  next sequence is the number of records the session holds; a rejected envelope is not
  persisted (section 7).
\<close>

definition append_ledger :: "jsvalue \<Rightarrow> ledger \<Rightarrow> (issue list + nat) \<times> ledger" where
  "append_ledger v L =
     (case EventEnvelopeSchema v of
        Inl es \<Rightarrow> (Inl es, L)
      | Inr env \<Rightarrow>
          (let sid = session_id env; n = length (L sid)
           in (Inr n, L(sid := L sid @ [EventEnvelope.extend env (ReplayEvent.fields n)]))))"

text \<open>
  Modelled from the spec: \<^verbatim>\<open>read(session_id, since_sequence, limit)\<close> of section 4.1,
  also a backend operation that is not among the sources.  It ``returns envelopes in
  strict sequence order; never reorders; is restartable (idempotent given the same
  arguments) and deterministic''.  The records of the session whose sequence is at least
  \<open>since_sequence\<close> are returned in ledger order, at most \<open>limit\<close> of them when a
  limit is given; the ledger is handed back as the call leaves it.
\<close>

definition read :: "string \<Rightarrow> nat \<Rightarrow> nat option \<Rightarrow> ledger \<Rightarrow> ReplayEvent list \<times> ledger" where
  "read sid since_sequence limit L =
     (let found = filter (\<lambda>e. since_sequence \<le> sequence e) (L sid)
      in (case limit of None \<Rightarrow> found | Some n \<Rightarrow> take n found, L))"

text \<open>
  Modelled from the spec: a history of the ledger, which changes by \<^verbatim>\<open>append\<close>
  alone (``once appended, an envelope is never mutated or deleted'', section 3): a run
  of appends, each on the ledger the previous one left.
\<close>

fun appends :: "jsvalue list \<Rightarrow> ledger \<Rightarrow> ledger" where
  "appends [] L = L"
| "appends (v # vs) L = appends vs (snd (append_ledger v L))"

section \<open>The handoff packet and its VALIDATED step\<close>

text \<open>
  Modelled from the spec: the HandoffPacket of section 3.  The handoff coordinator is
  not among the sources.  A packet under construction may still lack its scalar fields,
  so they are optional here.
\<close>

record OpenThread =
  thread_id :: string
  evidence_refs :: "string list"

record Decision =
  decision :: string
  rationale :: string
  supporting_event_ids :: "string list"

datatype severity = low | medium | high

record Risk =
  risk :: string
  risk_severity :: severity
  mitigation :: "string option"

record ProbeResult =
  probe_category :: string
  pass :: bool
  detail :: string

record HandoffPacket =
  handoff_id :: "string option"
  source_session_id :: "string option"
  target_session_id :: "string option"
  mission_statement :: "string option"
  open_threads :: "OpenThread list"
  decisions_log :: "Decision list"
  artifacts_refs :: "string list"
  risks :: "Risk list"
  coverage_score :: rat
  confidence_score :: rat
  invariants_passed :: bool
  continuity_probe_results :: "ProbeResult list"

text \<open>
  Modelled from the spec: the error taxonomy of section 7, the states of the transition
  state machine of section 4.3 (FAILED ``always carries a machine-readable reason code''),
  and the lifecycle event types of section 6.
\<close>

datatype failure_reason =
  ValidationError | ProbeFailure | CoverageShortfall | RepeatedHandoffFailure

datatype handoff_state =
    TRIGGERED | FROZEN | SNAPSHOTTED | COMPRESSED | PRUNED | VALIDATED
  | BOOTSTRAPPED | VERIFIED | COMPLETED | FAILED failure_reason

datatype lifecycle_event =
    CONTEXT_HANDOFF_STARTED
  | CONTEXT_HANDOFF_PACKET_BUILT
  | CONTEXT_HANDOFF_VALIDATED
  | CONTEXT_HANDOFF_BOOTSTRAPPED
  | CONTEXT_HANDOFF_FAILED failure_reason
  | CONTEXT_HANDOFF_COMPLETED

text \<open>
  Modelled from the spec: the invariant checks of the VALIDATED state.  Section 3 makes
  the decisions log ``evidence-grounded, never summary-only'', the glossary reads
  evidence-grounded as ``every retained claim in a packet cites at least one concrete
  event id'', open threads carry evidence references, and the two scores are
  ``reals in [0,1]''.
\<close>

definition evidence_grounded :: "HandoffPacket \<Rightarrow> bool" where
  "evidence_grounded p =
     (list_all (\<lambda>d. supporting_event_ids d \<noteq> []) (decisions_log p)
      \<and> list_all (\<lambda>t. evidence_refs t \<noteq> []) (open_threads p))"

text \<open>Modelled from the spec: \<open>coverage_score\<close>, \<open>confidence_score\<close>: ``reals in [0,1]''.\<close>

definition scores_in_range :: "HandoffPacket \<Rightarrow> bool" where
  "scores_in_range p =
     (0 \<le> coverage_score p \<and> coverage_score p \<le> 1
      \<and> 0 \<le> confidence_score p \<and> confidence_score p \<le> 1)"

text \<open>Modelled from the spec: the invariant checks taken together.\<close>

definition check_invariants :: "HandoffPacket \<Rightarrow> bool" where
  "check_invariants p = (evidence_grounded p \<and> scores_in_range p)"

text \<open>
  Modelled from the spec: the schema check of the VALIDATED state, ``required fields are
  missing'': one of the identifiers or the mission statement is absent.
\<close>

definition required_fields_missing :: "HandoffPacket \<Rightarrow> bool" where
  "required_fields_missing p =
     (handoff_id p = None \<or> source_session_id p = None \<or> target_session_id p = None
      \<or> mission_statement p = None)"

text \<open>
  Modelled from the spec: the VALIDATED state of section 4.3, ``schema and invariant
  checks run; if invariants_passed is false or required fields are missing, transition
  to FAILED.  Emits CONTEXT_HANDOFF_PACKET_BUILT then, on success,
  CONTEXT_HANDOFF_VALIDATED'', with FAILED emitting CONTEXT_HANDOFF_FAILED and a reason
  code (a malformed packet is a ValidationError, section 7).  The step takes the pruned
  packet and returns the state reached, the packet with the outcome of the checks
  recorded, and the lifecycle events emitted.
\<close>

definition validate_step ::
  "HandoffPacket \<Rightarrow> handoff_state \<times> HandoffPacket \<times> lifecycle_event list" where
  "validate_step p =
     (let p' = p\<lparr>invariants_passed := check_invariants p\<rparr>
      in if \<not> invariants_passed p' \<or> required_fields_missing p'
         then (FAILED ValidationError, p',
               [CONTEXT_HANDOFF_PACKET_BUILT, CONTEXT_HANDOFF_FAILED ValidationError])
         else (VALIDATED, p', [CONTEXT_HANDOFF_PACKET_BUILT, CONTEXT_HANDOFF_VALIDATED]))"

text \<open>A packet whose second decision cites no event.\<close>

definition unsupported_decision_packet :: HandoffPacket where
  "unsupported_decision_packet =
     \<lparr> handoff_id = Some ''h1'', source_session_id = Some ''sess_1'',
       target_session_id = Some ''sess_2'', mission_statement = Some ''ship the ledger'',
       open_threads = [],
       decisions_log =
         [\<lparr> decision = ''use sqlite'', rationale = ''simple'', supporting_event_ids = [''evt_7''] \<rparr>,
          \<lparr> decision = ''skip cache'', rationale = ''later'', supporting_event_ids = [] \<rparr>],
       artifacts_refs = [], risks = [], coverage_score = 9 / 10, confidence_score = 9 / 10,
       invariants_passed = True, continuity_probe_results = [] \<rparr>"

section \<open>Paginated events: the response and the console's paging\<close>

text \<open>
  \<^verbatim>\<open>SessionEventsResponse\<close> of \<^verbatim>\<open>frontend/src/api/logs.ts\<close>.  Two fields are
  prefixed because their names are taken: \<open>session_id\<close> by the envelope and
  \<open>offset\<close> by the console's state.
\<close>

record SessionEventsResponse =
  page_session_id :: string
  since_event_id :: "string option"
  page_offset :: nat
  limit :: nat
  next_offset :: "nat option"
  total_after_since :: nat
  events :: "ReplayEvent list"
  ordered :: bool
  gap_free :: bool
  deterministic :: bool
  raw :: bool

text \<open>
  Modelled from the spec: what the \<open>gap_free\<close> guarantee of a page says of its
  sequence numbers: each is the successor of the one before.
\<close>

fun consecutive :: "nat list \<Rightarrow> bool" where
  "consecutive (a # b # rest) = (b = Suc a \<and> consecutive (b # rest))"
| "consecutive _ = True"

text \<open>
  Modelled from the spec: the paginated events endpoint of section 6, served by the
  backend, which is not among the sources: ``fetch paginated events (since/limit/offset,
  returns next_offset or null at end, and explicit ordered/gap_free/deterministic
  guarantees as booleans in the response)''.  \<open>after\<close> is the list of the session's
  events that follow \<open>since\<close>; the page is the window of \<open>lmt\<close> events at
  \<open>off\<close>, and \<open>next_offset\<close> is the offset just past the page, or null when the page
  reaches the end of \<open>after\<close>.
\<close>

definition events_page ::
  "string \<Rightarrow> string option \<Rightarrow> ReplayEvent list \<Rightarrow> nat \<Rightarrow> nat \<Rightarrow> bool \<Rightarrow> SessionEventsResponse" where
  "events_page sid since after off lmt raw_mode =
     (let page = take lmt (drop off after)
      in \<lparr> page_session_id = sid, since_event_id = since, page_offset = off, limit = lmt,
           next_offset =
             (if off + length page < length after then Some (off + length page) else None),
           total_after_since = length after, events = page,
           ordered = sorted_wrt (<) (map sequence page),
           gap_free = consecutive (map sequence page),
           deterministic = True, raw = raw_mode \<rparr>)"

text \<open>
  The paging state of the console's \<^verbatim>\<open>App\<close> component: \<^verbatim>\<open>offset\<close> and
  \<^verbatim>\<open>eventsPage\<close> (\<^verbatim>\<open>useState\<close>), with \<^verbatim>\<open>canPrev\<close>, \<^verbatim>\<open>canNext\<close> and the
  \<^verbatim>\<open>onClick\<close> handlers of the Prev and Next buttons.  A disabled button does not
  fire its handler.
\<close>

definition PAGE_SIZE :: nat where
  "PAGE_SIZE = 50"

record App =
  offset :: nat
  eventsPage :: "SessionEventsResponse option"

definition canPrev :: "App \<Rightarrow> bool" where
  "canPrev st = (offset st > 0)"

definition canNext :: "App \<Rightarrow> bool" where
  "canNext st = (case eventsPage st of None \<Rightarrow> False | Some p \<Rightarrow> next_offset p \<noteq> None)"

definition onPrev :: "App \<Rightarrow> App" where
  "onPrev st = st\<lparr>offset := (if offset st < PAGE_SIZE then 0 else offset st - PAGE_SIZE)\<rparr>"

definition onNext :: "App \<Rightarrow> App" where
  "onNext st =
     st\<lparr>offset :=
          (case eventsPage st of
             None \<Rightarrow> offset st
           | Some p \<Rightarrow> (case next_offset p of None \<Rightarrow> offset st | Some n \<Rightarrow> n))\<rparr>"

definition click_next :: "App \<Rightarrow> App" where
  "click_next st = (if canNext st then onNext st else st)"

definition click_prev :: "App \<Rightarrow> App" where
  "click_prev st = (if canPrev st then onPrev st else st)"

text \<open>A replayed event with a given sequence number.\<close>

definition numbered :: "nat \<Rightarrow> ReplayEvent" where
  "numbered n =
     EventEnvelope.extend
       \<lparr> schema_version = ''1.0'', event_id = ''evt'', parent_event_id = None,
         session_id = ''sess_123'', trace_id = ''trace_1'',
         timestamp_utc = ''2026-02-10T00:00:00Z'', actor_id = ''agent_1'',
         actor_role = ''DEV'', channel = ''LOCAL'', event_type = ''TASK_STARTED'',
         payload = [], safety_flags = [], token_in = 0, token_out = 0, latency_ms = 0,
         cost_usd = 0 \<rparr>
       (ReplayEvent.fields n)"

section \<open>Building request URLs and fetching JSON\<close>

text \<open>
  \<^verbatim>\<open>QueryValue = string | number | boolean | null | undefined\<close> and the
  conversion \<^verbatim>\<open>String(value)\<close>.  The numeric parameters the console sends
  (\<^verbatim>\<open>limit\<close>, \<^verbatim>\<open>offset\<close>, \<^verbatim>\<open>top_n\<close>, \<^verbatim>\<open>limit_sessions\<close>,
  \<^verbatim>\<open>bucket_seconds\<close>) are integer counts, which JavaScript prints in decimal;
  fractional numbers are outside the model.
\<close>

datatype QueryValue = QString string | QNumber int | QBoolean bool | QNull | QUndefined

definition digit :: "nat \<Rightarrow> char" where
  "digit d = ''0123456789'' ! d"

fun show_nat :: "nat \<Rightarrow> string" where
  "show_nat n = (if n < 10 then [digit n] else show_nat (n div 10) @ [digit (n mod 10)])"

definition show_int :: "int \<Rightarrow> string" where
  "show_int i = (if i < 0 then CHR ''-'' # show_nat (nat (- i)) else show_nat (nat i))"

fun js_String :: "QueryValue \<Rightarrow> string" where
  "js_String (QString s) = s"
| "js_String (QNumber i) = show_int i"
| "js_String (QBoolean b) = (if b then ''true'' else ''false'')"
| "js_String QNull = ''null''"
| "js_String QUndefined = ''undefined''"

text \<open>
  The parts of a \<^verbatim>\<open>URL\<close> object that \<^verbatim>\<open>buildUrl\<close> touches.  \<open>query\<close> is the
  URL's query string (null when there is none) and \<open>searchParams\<close> the list of
  name-value pairs of its \<^verbatim>\<open>URLSearchParams\<close> object.
\<close>

record URL =
  origin :: string
  pathname :: string
  query :: "string option"
  searchParams :: "(string \<times> string) list"
  hash :: string

text \<open>
  The \<^verbatim>\<open>application/x-www-form-urlencoded\<close> serializer of the URL standard, on
  strings taken as UTF-8 bytes: letters, digits and \<^verbatim>\<open>*-._\<close> stay, a space
  becomes \<^verbatim>\<open>+\<close>, every other byte is percent-encoded.
\<close>

definition hex_digit :: "nat \<Rightarrow> char" where
  "hex_digit d = ''0123456789ABCDEF'' ! d"

definition urlencode_byte :: "char \<Rightarrow> string" where
  "urlencode_byte c =
     (if c = CHR '' '' then ''+''
      else if c \<in> set ''abcdefghijklmnopqrstuvwxyzABCDEFGHIJKLMNOPQRSTUVWXYZ0123456789*-._''
        then [c]
      else [CHR ''%'', hex_digit (of_char c div 16), hex_digit (of_char c mod 16)])"

definition urlencode :: "string \<Rightarrow> string" where
  "urlencode s = concat (map urlencode_byte s)"

fun join_amp :: "string list \<Rightarrow> string" where
  "join_amp [] = []"
| "join_amp [x] = x"
| "join_amp (x # y # rest) = x @ ''&'' @ join_amp (y # rest)"

definition serialize :: "(string \<times> string) list \<Rightarrow> string" where
  "serialize ps = join_amp (map (\<lambda>(name, val). urlencode name @ ''='' @ urlencode val) ps)"

text \<open>
  \<^verbatim>\<open>URLSearchParams.set(name, value)\<close>: the first pair named \<open>name\<close> takes the
  value and the other pairs of that name are removed; when there is none, the pair is
  appended.  The URL's query is then updated to the serialized list (null when that is
  empty).
\<close>

fun set_pair :: "string \<Rightarrow> string \<Rightarrow> (string \<times> string) list \<Rightarrow> (string \<times> string) list" where
  "set_pair name val [] = [(name, val)]"
| "set_pair name val ((k, v) # ps) =
     (if k = name then (name, val) # filter (\<lambda>(k', v'). k' \<noteq> name) ps
      else (k, v) # set_pair name val ps)"

definition searchParams_set :: "string \<Rightarrow> string \<Rightarrow> URL \<Rightarrow> URL" where
  "searchParams_set name val u =
     (let ps = set_pair name val (searchParams u); q = serialize ps
      in u\<lparr>searchParams := ps, query := (if q = [] then None else Some q)\<rparr>)"

text \<open>The \<^verbatim>\<open>search\<close> getter.\<close>

definition search :: "URL \<Rightarrow> string" where
  "search u = (case query u of None \<Rightarrow> [] | Some q \<Rightarrow> if q = [] then [] else CHR ''?'' # q)"

datatype js_error = Error string | TypeError string | SyntaxError string

definition API_BASE :: "string option \<Rightarrow> string" where
  "API_BASE VITE_API_BASE = (case VITE_API_BASE of None \<Rightarrow> ''/api/v1'' | Some b \<Rightarrow> b)"

text \<open>
  The body of the \<^verbatim>\<open>forEach\<close> over \<^verbatim>\<open>Object.entries(params)\<close>, entry by entry in
  property order.
\<close>

definition set_params :: "(string \<times> QueryValue) list \<Rightarrow> URL \<Rightarrow> URL" where
  "set_params params url =
     fold (\<lambda>(key, val) u.
             if val = QUndefined \<or> val = QNull then u
             else searchParams_set key (js_String val) u)
       params url"

text \<open>
  \<^verbatim>\<open>buildUrl(path, params?)\<close>.  The URL parser of the platform is a parameter:
  \<open>new_URL input base\<close> is the \<^verbatim>\<open>URL\<close> object that \<^verbatim>\<open>new URL(input, base)\<close>
  constructs, or \<open>None\<close> when the constructor throws a TypeError.  \<open>api_base\<close> is
  the module constant \<^verbatim>\<open>API_BASE\<close> and \<open>window_origin\<close> is
  \<^verbatim>\<open>window.location.origin\<close>.
\<close>

definition buildUrl ::
  "(string \<Rightarrow> string \<Rightarrow> URL option) \<Rightarrow> string \<Rightarrow> string \<Rightarrow> string
     \<Rightarrow> (string \<times> QueryValue) list option \<Rightarrow> js_error + string" where
  "buildUrl new_URL api_base window_origin path params =
     (case new_URL (api_base @ path) window_origin of
        None \<Rightarrow> Inl (TypeError ''Invalid URL'')
      | Some url \<Rightarrow>
          (let url' = (case params of None \<Rightarrow> url | Some ps \<Rightarrow> set_params ps url)
           in Inr (pathname url' @ search url')))"

text \<open>
  The outcome of one \<^verbatim>\<open>fetch\<close>: the promise rejects (a network failure) or resolves
  with a response.  \<open>body\<close> is what \<^verbatim>\<open>response.text()\<close> yields and \<open>json\<close> what
  \<^verbatim>\<open>response.json()\<close> yields, \<open>None\<close> when the body is not JSON.
\<close>

record Response =
  ok :: bool
  status :: nat
  statusText :: string
  body :: string
  json :: "jsvalue option"

datatype fetch_result = Rejected string | Resolved Response

text \<open>
  \<^verbatim>\<open>fetchJson(path, params?)\<close>.  The network is a parameter: \<open>net n url\<close> is the
  outcome of the request for \<open>url\<close> when \<open>n\<close> requests have been sent before it.
  The result is paired with the number of requests sent once the call is over.
\<close>

definition fetchJson ::
  "(string \<Rightarrow> string \<Rightarrow> URL option) \<Rightarrow> string \<Rightarrow> string \<Rightarrow> (nat \<Rightarrow> string \<Rightarrow> fetch_result)
     \<Rightarrow> nat \<Rightarrow> string \<Rightarrow> (string \<times> QueryValue) list option \<Rightarrow> (js_error + jsvalue) \<times> nat" where
  "fetchJson new_URL api_base window_origin net n path params =
     (case buildUrl new_URL api_base window_origin path params of
        Inl e \<Rightarrow> (Inl e, n)
      | Inr url \<Rightarrow>
          (case net n url of
             Rejected msg \<Rightarrow> (Inl (TypeError msg), Suc n)
           | Resolved response \<Rightarrow>
               if \<not> ok response
               then (Inl (Error (show_nat (status response) @ '' '' @ statusText response
                                 @ '': '' @ take 500 (body response))), Suc n)
               else (case json response of
                       None \<Rightarrow> (Inl (SyntaxError ''Unexpected token''), Suc n)
                     | Some v \<Rightarrow> (Inr v, Suc n))))"

text \<open>
  A URL parser's answer on an input that is a plain absolute path, with neither query
  nor fragment: the path is the pathname and the origin is the base's.
\<close>

definition plain_path_URL :: "string \<Rightarrow> string \<Rightarrow> URL option" where
  "plain_path_URL input base =
     Some \<lparr> origin = base, pathname = input, query = None, searchParams = [], hash = [] \<rparr>"

text \<open>A backend that is busy on the first request and answers the second.\<close>

definition busy_once :: "nat \<Rightarrow> string \<Rightarrow> fetch_result" where
  "busy_once n url =
     (if n = 0
      then Resolved \<lparr> ok = False, status = 503, statusText = ''Service Unavailable'',
                      body = ''ledger busy'', json = None \<rparr>
      else Resolved \<lparr> ok = True, status = 200, statusText = ''OK'',
                      body = ''{}'', json = Some (JObject []) \<rparr>)"

text \<open>Three appends to one session, the second of which is rejected.\<close>

definition three_appends :: "jsvalue list" where
  "three_appends =
     [JObject sample_envelope, JObject negative_token_envelope, JObject sample_envelope]"

text \<open>
  The ledger invariant: in every session the record at position \<open>i\<close> carries
  sequence \<open>i\<close>.
\<close>

definition well_sequenced :: "ledger \<Rightarrow> bool" where
  "well_sequenced L = (\<forall>sid. map sequence (L sid) = [0..<length (L sid)])"

text \<open>
  The entries of a parameter record that \<^verbatim>\<open>buildUrl\<close> does not skip, and the pairs
  of a search-parameter list that carry a given name.
\<close>

definition supplied :: "(string \<times> QueryValue) list \<Rightarrow> (string \<times> QueryValue) list" where
  "supplied ps = filter (\<lambda>(k, v). v \<noteq> QUndefined \<and> v \<noteq> QNull) ps"

definition named :: "string \<Rightarrow> (string \<times> string) list \<Rightarrow> (string \<times> string) list" where
  "named k ps = filter (\<lambda>p. fst p = k) ps"

text \<open>
  The parameters of the console's first events request, \<^verbatim>\<open>since\<close> left undefined.
\<close>

definition console_query :: "(string \<times> QueryValue) list" where
  "console_query =
     [(''raw'', QBoolean False), (''since'', QUndefined), (''limit'', QNumber 50),
      (''offset'', QNumber 0)]"


section \<open>Properties of the envelope schema\<close>

lemma success_at_path [simp]: "success (at_path p r) = success r"
  by (cases r) (simp_all add: success_def at_path_def)

lemma success_Inr [simp]: "success (Inr x)"
  by (simp add: success_def)

lemma success_Inl [simp]: "\<not> success (Inl es)"
  by (simp add: success_def)

lemma success_iff_Inr: "success r \<longleftrightarrow> (\<exists>x. r = Inr x)"
  by (cases r) simp_all

lemma not_success_iff_Inl: "(\<exists>es. r = Inl es) \<longleftrightarrow> \<not> success r"
  by (cases r) simp_all

lemma success_z_string: "success (z_string v) = is_string v"
  by (cases v) (simp_all add: z_string_def is_string_def)

lemma success_z_enum: "success (z_enum opts v) = (v \<in> JString ` set opts)"
  by (cases v) (auto simp: z_enum_def)

lemma success_z_record_unknown: "success (z_record_unknown v) = is_object v"
  by (cases v) (simp_all add: z_record_unknown_def is_object_def)

lemma success_count_schema: "success (count_schema v) = (v = JUndefined \<or> is_nonneg_integer v)"
  by (cases v) (auto simp: count_schema_def z_default_def z_number_def is_nonneg_integer_def is_integer_def Let_def)

lemma success_cost_schema: "success (cost_schema v) = (v = JUndefined \<or> is_nonneg_number v)"
  by (cases v) (auto simp: cost_schema_def z_default_def z_number_def is_nonneg_number_def Let_def)

lemma success_z_array_items_Cons:
  "success (z_array_items s i (x # xs)) = (success (s x) \<and> success (z_array_items s (Suc i) xs))"
  by (cases "s x"; cases "z_array_items s (Suc i) xs") (simp_all add: at_path_def)

lemma success_z_array_items: "success (z_array_items z_string i xs) = list_all is_string xs"
  by (induction xs arbitrary: i) (simp_all add: success_z_array_items_Cons success_z_string del: z_array_items.simps(2))

lemma success_safety_flags_schema: "success (safety_flags_schema v) = (v = JUndefined \<or> is_string_array v)"
  by (cases v) (auto simp: safety_flags_schema_def z_default_def z_array_def is_string_array_def success_z_array_items)

lemma success_parent_schema: "success (parent_schema v) = (v = JUndefined \<or> v = JNull \<or> is_string v)"
  by (cases v) (auto simp: parent_schema_def z_optional_def z_nullable_def z_string_def is_string_def)

lemma success_field: "success (field k s kvs) = success (s (get_prop kvs k))"
  by (simp add: field_def)

lemma EventEnvelopeSchema_success_iff:
  "success (EventEnvelopeSchema v) \<longleftrightarrow>
     (\<exists>kvs. v = JObject kvs
        \<and> is_string (get_prop kvs ''schema_version'')
        \<and> is_string (get_prop kvs ''event_id'')
        \<and> success (parent_schema (get_prop kvs ''parent_event_id''))
        \<and> is_string (get_prop kvs ''session_id'')
        \<and> is_string (get_prop kvs ''trace_id'')
        \<and> is_string (get_prop kvs ''timestamp_utc'')
        \<and> is_string (get_prop kvs ''actor_id'')
        \<and> get_prop kvs ''actor_role'' \<in> JString ` set actor_roles
        \<and> get_prop kvs ''channel'' \<in> JString ` set channels
        \<and> is_string (get_prop kvs ''event_type'')
        \<and> is_object (get_prop kvs ''payload'')
        \<and> success (safety_flags_schema (get_prop kvs ''safety_flags''))
        \<and> success (count_schema (get_prop kvs ''token_in''))
        \<and> success (count_schema (get_prop kvs ''token_out''))
        \<and> success (count_schema (get_prop kvs ''latency_ms''))
        \<and> success (cost_schema (get_prop kvs ''cost_usd'')))"
proof (cases v)
  case (JObject kvs)
  show ?thesis
    unfolding JObject EventEnvelopeSchema_def Let_def jsvalue.case
    by (simp only: success_field success_z_string success_z_enum success_z_record_unknown if_split success_Inr success_Inl jsvalue.inject ex_simps simp_thms)
qed (simp_all add: EventEnvelopeSchema_def)

lemma is_string_not_undefined: "is_string v \<Longrightarrow> v \<noteq> JUndefined"
  by (auto simp: is_string_def)

lemma get_prop_without:
  "get_prop (without ks kvs) k = (if k \<in> set ks then JUndefined else get_prop kvs k)"
  by (induction kvs) (auto simp: get_prop_def without_def)

lemma get_prop_Cons:
  "get_prop ((k', v) # kvs) k = (if k = k' then v else get_prop kvs k)"
  by (simp add: get_prop_def)

lemma is_nonneg_integer_iff: "is_nonneg_integer v \<longleftrightarrow> (\<exists>n::nat. v = JNumber (of_nat n))"
proof
  assume "is_nonneg_integer v"
  then obtain x where v: "v = JNumber x" and i: "of_int \<lfloor>x\<rfloor> = x" and nn: "0 \<le> x"
    by (cases v) (auto simp: is_nonneg_integer_def is_integer_def)
  from nn have "0 \<le> \<lfloor>x\<rfloor>" by simp
  then have "of_nat (nat \<lfloor>x\<rfloor>) = (of_int \<lfloor>x\<rfloor> :: rat)" by simp
  with i v show "\<exists>n::nat. v = JNumber (of_nat n)" by metis
next
  assume "\<exists>n::nat. v = JNumber (of_nat n)"
  then show "is_nonneg_integer v"
    by (auto simp: is_nonneg_integer_def is_integer_def)
qed

lemma is_nonneg_number_iff: "is_nonneg_number v \<longleftrightarrow> (\<exists>x. 0 \<le> x \<and> v = JNumber x)"
  by (cases v) (auto simp: is_nonneg_number_def)

lemma sample_props:
  "get_prop sample_envelope ''schema_version'' = JString ''1.0''"
  "get_prop sample_envelope ''safety_flags'' = JUndefined"
  "get_prop sample_envelope ''token_in'' = JUndefined"
  by (simp_all add: sample_envelope_def get_prop_def)

lemma sample_ok: "success (EventEnvelopeSchema (JObject sample_envelope))"
  by (simp add: EventEnvelopeSchema_success_iff sample_envelope_def get_prop_def is_string_def is_object_def
      success_parent_schema success_safety_flags_schema success_count_schema success_cost_schema actor_roles_def channels_def)

lemma sample_parsed:
  "EventEnvelopeSchema (JObject sample_envelope) =
     Inr \<lparr> schema_version = ''1.0'', event_id = ''evt_1'', parent_event_id = None,
           session_id = ''sess_123'', trace_id = ''trace_1'',
           timestamp_utc = ''2026-02-10T00:00:00Z'', actor_id = ''agent_1'',
           actor_role = ''DEV'', channel = ''LOCAL'', event_type = ''TASK_STARTED'',
           payload = [], safety_flags = [], token_in = 0, token_out = 0, latency_ms = 0,
           cost_usd = 0 \<rparr>"
  by (simp add: sample_envelope_def
      get_prop_def actor_roles_def channels_def EventEnvelopeSchema_def field_def z_string_def z_enum_def
      parent_schema_def z_optional_def z_record_unknown_def safety_flags_schema_def z_default_def
      z_array_def count_schema_def cost_schema_def z_number_def is_integer_def at_path_def
      issues_of_def success_def)

lemma negative_token_rejected:
  "EventEnvelopeSchema (JObject negative_token_envelope) = Inl [([Key ''token_in''], Too_small)]"
  by (simp add: negative_token_envelope_def sample_envelope_def
      get_prop_def actor_roles_def channels_def EventEnvelopeSchema_def field_def z_string_def z_enum_def
      parent_schema_def z_optional_def z_record_unknown_def safety_flags_schema_def z_default_def
      z_array_def count_schema_def cost_schema_def z_number_def is_integer_def at_path_def
      issues_of_def success_def)

lemma field_Cons_other:
  "k \<noteq> k' \<Longrightarrow> field k s ((k', v) # kvs) = field k s kvs"
  by (simp add: field_def get_prop_def)

lemma field_without:
  "field k s (without ks kvs) = (if k \<in> set ks then at_path (Key k) (s JUndefined) else field k s kvs)"
  by (simp add: field_def get_prop_without)

text \<open>
  Claim C1, as amended.  Validation of an envelope fails exactly when the input is not an
  object, or a required field is missing or not of its declared type (a string; an object
  for \<open>payload\<close>), or \<open>actor_role\<close> or \<open>channel\<close> lies outside its closed set,
  or an optional field is present with an invalid value: \<open>parent_event_id\<close> neither
  null nor a string, \<open>safety_flags\<close> not an array of strings, \<open>token_in\<close>,
  \<open>token_out\<close> or \<open>latency_ms\<close> not a non-negative integer, \<open>cost_usd\<close> not a
  non-negative number.  Every other envelope passes.
\<close>

theorem envelope_validation_fails_iff:
  "(\<exists>es. EventEnvelopeSchema v = Inl es) \<longleftrightarrow>
     (case v of
        JObject kvs \<Rightarrow>
            missing_required kvs
          \<or> list_ex (\<lambda>k. \<not> is_string (get_prop kvs k)) string_fields
          \<or> \<not> is_object (get_prop kvs ''payload'')
          \<or> get_prop kvs ''actor_role'' \<notin> JString ` set actor_roles
          \<or> get_prop kvs ''channel'' \<notin> JString ` set channels
          \<or> \<not> (get_prop kvs ''parent_event_id'' = JUndefined
                \<or> get_prop kvs ''parent_event_id'' = JNull
                \<or> is_string (get_prop kvs ''parent_event_id''))
          \<or> \<not> (get_prop kvs ''safety_flags'' = JUndefined
                \<or> is_string_array (get_prop kvs ''safety_flags''))
          \<or> list_ex (\<lambda>k. \<not> (get_prop kvs k = JUndefined \<or> is_nonneg_integer (get_prop kvs k)))
               [''token_in'', ''token_out'', ''latency_ms'']
          \<or> \<not> (get_prop kvs ''cost_usd'' = JUndefined \<or> is_nonneg_number (get_prop kvs ''cost_usd''))
      | _ \<Rightarrow> True)"
proof (cases v)
  case (JObject kvs)
  have role: "get_prop kvs ''actor_role'' \<in> JString ` set actor_roles
      \<Longrightarrow> get_prop kvs ''actor_role'' \<noteq> JUndefined"
    and chan: "get_prop kvs ''channel'' \<in> JString ` set channels
      \<Longrightarrow> get_prop kvs ''channel'' \<noteq> JUndefined"
    and obj: "is_object (get_prop kvs ''payload'') \<Longrightarrow> get_prop kvs ''payload'' \<noteq> JUndefined"
    by (auto simp: is_object_def)
  show ?thesis
    unfolding not_success_iff_Inl EventEnvelopeSchema_success_iff JObject jsvalue.case
      missing_required_def required_fields_def string_fields_def
      success_parent_schema success_safety_flags_schema success_count_schema
      success_cost_schema list_ex_Nil_iff list_ex_Cons_iff jsvalue.inject ex_simps simp_thms
    using role chan obj is_string_not_undefined by blast
qed (simp_all add: EventEnvelopeSchema_def)

text \<open>
  The claim as first stated fails: the envelope below has every required field, its role
  and channel are in the closed sets, and it is rejected for its negative
  \<open>token_in\<close>.
\<close>

theorem required_present_yet_rejected:
  "\<not> missing_required negative_token_envelope
   \<and> get_prop negative_token_envelope ''actor_role'' \<in> JString ` set actor_roles
   \<and> get_prop negative_token_envelope ''channel'' \<in> JString ` set channels
   \<and> EventEnvelopeSchema (JObject negative_token_envelope) = Inl [([Key ''token_in''], Too_small)]"
  by (simp add: negative_token_rejected)
     (simp add: negative_token_envelope_def sample_envelope_def missing_required_def
       required_fields_def get_prop_def actor_roles_def channels_def)

theorem envelope_validation_fails_iff_witness:
  "(\<exists>es. EventEnvelopeSchema (JObject negative_token_envelope) = Inl es)
   \<and> \<not> (\<exists>es. EventEnvelopeSchema (JObject sample_envelope) = Inl es)"
  using envelope_validation_fails_iff [of "JObject negative_token_envelope"]
    envelope_validation_fails_iff [of "JObject sample_envelope"]
  by (simp add: negative_token_envelope_def sample_envelope_def missing_required_def required_fields_def
      string_fields_def get_prop_def actor_roles_def channels_def is_string_def is_object_def
      is_nonneg_integer_def)

text \<open>
  Claim C8, as amended.  Relative to the envelope without its four cost/perf fields,
  validation accepts exactly when each of \<open>token_in\<close>, \<open>token_out\<close> and
  \<open>latency_ms\<close> is omitted (it then defaults to 0) or a non-negative integer, and
  \<open>cost_usd\<close> is omitted or a non-negative number; so a negative value, and for the
  first three a non-integer one, is rejected.
\<close>

theorem cost_perf_fields_accepted_iff:
  "success (EventEnvelopeSchema (JObject kvs)) \<longleftrightarrow>
     success (EventEnvelopeSchema (JObject (without cost_perf_fields kvs)))
     \<and> (get_prop kvs ''token_in'' = JUndefined
          \<or> (\<exists>n::nat. get_prop kvs ''token_in'' = JNumber (of_nat n)))
     \<and> (get_prop kvs ''token_out'' = JUndefined
          \<or> (\<exists>n::nat. get_prop kvs ''token_out'' = JNumber (of_nat n)))
     \<and> (get_prop kvs ''latency_ms'' = JUndefined
          \<or> (\<exists>n::nat. get_prop kvs ''latency_ms'' = JNumber (of_nat n)))
     \<and> (get_prop kvs ''cost_usd'' = JUndefined
          \<or> (\<exists>x. 0 \<le> x \<and> get_prop kvs ''cost_usd'' = JNumber x))"
  unfolding EventEnvelopeSchema_success_iff jsvalue.inject
  by (simp add: get_prop_without cost_perf_fields_def success_count_schema success_cost_schema
      is_nonneg_integer_iff is_nonneg_number_iff)

text \<open>
  The claim as first stated fails on omission: the minimal envelope carries no
  \<open>token_in\<close> at all, hence no non-negative integer there, and it is accepted.
\<close>

theorem omitted_cost_perf_accepted:
  "success (EventEnvelopeSchema (JObject sample_envelope))
   \<and> get_prop sample_envelope ''token_in'' = JUndefined
   \<and> \<not> is_nonneg_integer (get_prop sample_envelope ''token_in'')"
  by (simp add: sample_ok sample_props is_nonneg_integer_def)

theorem cost_perf_fields_accepted_iff_witness:
  "success (EventEnvelopeSchema (JObject priced_envelope))
   \<and> \<not> success (EventEnvelopeSchema (JObject fractional_latency_envelope))"
proof -
  have w: "without cost_perf_fields priced_envelope = sample_envelope"
    "without cost_perf_fields fractional_latency_envelope = sample_envelope"
    by (simp_all add: without_def cost_perf_fields_def priced_envelope_def
        fractional_latency_envelope_def sample_envelope_def)
  have twelve: "(12::rat) = of_nat 12" and ms: "(250::rat) = of_nat 250" by simp_all
  have frac: "\<And>n::nat. (3 / 2 :: rat) \<noteq> of_nat n"
  proof
    fix n :: nat assume "(3 / 2 :: rat) = of_nat n"
    then have "(3::rat) = of_nat (2 * n)" by simp
    then have "(3::nat) = 2 * n" using of_nat_eq_iff[where 'a=rat, of 3 "2 * n"] by simp
    then show False by presburger
  qed
  have p: "get_prop priced_envelope ''token_in'' = JNumber (of_nat 12)"
    "get_prop priced_envelope ''token_out'' = JUndefined"
    "get_prop priced_envelope ''latency_ms'' = JNumber (of_nat 250)"
    "get_prop priced_envelope ''cost_usd'' = JNumber (1 / 4)"
    "get_prop fractional_latency_envelope ''latency_ms'' = JNumber (3 / 2)"
    by (simp_all add: priced_envelope_def fractional_latency_envelope_def sample_envelope_def get_prop_def)
  have quarter: "\<exists>x::rat. 0 \<le> x \<and> x * 4 = 1"
    by (rule exI[of _ "1 / 4"]) simp
  show ?thesis
    using cost_perf_fields_accepted_iff [of priced_envelope]
      cost_perf_fields_accepted_iff [of fractional_latency_envelope]
    unfolding w p using sample_ok frac quarter by auto
qed

text \<open>
  Claim C9.  When \<open>safety_flags\<close> is omitted from an envelope that is otherwise valid
  (it validates once some flags are supplied), validation succeeds, and the parsed
  envelope is the same one with \<open>safety_flags\<close> equal to the empty list.
\<close>

theorem omitted_safety_flags_default_empty:
  assumes "get_prop kvs ''safety_flags'' = JUndefined"
    and "EventEnvelopeSchema (JObject ((''safety_flags'', JArray fl) # kvs)) = Inr env"
  shows "EventEnvelopeSchema (JObject kvs) = Inr (env\<lparr>safety_flags := []\<rparr>)"
proof -
  have omitted: "field ''safety_flags'' safety_flags_schema kvs = Inr []"
    using assms(1)
    by (simp add: field_def safety_flags_schema_def z_default_def z_array_def at_path_def)
  have supplied: "success (field ''safety_flags'' safety_flags_schema ((''safety_flags'', JArray fl) # kvs))"
    using assms(2) by (simp add: EventEnvelopeSchema_def Let_def split: if_splits)
  show ?thesis
    using assms(2) supplied
    by (auto simp add: EventEnvelopeSchema_def Let_def field_Cons_other omitted split: if_splits)
qed

theorem omitted_safety_flags_default_empty_witness:
  "get_prop sample_envelope ''safety_flags'' = JUndefined
   \<and> (\<exists>env. EventEnvelopeSchema (JObject sample_envelope) = Inr env \<and> safety_flags env = [])"
proof -
  have a: "get_prop sample_envelope ''safety_flags'' = JUndefined"
    by (simp add: sample_props)
  have "success (EventEnvelopeSchema (JObject ((''safety_flags'', JArray [JString ''pii'']) # sample_envelope)))"
    by (simp add: EventEnvelopeSchema_success_iff sample_envelope_def get_prop_def is_string_def
        is_object_def success_parent_schema success_safety_flags_schema success_count_schema
        success_cost_schema actor_roles_def channels_def is_string_array_def)
  then obtain env where b:
    "EventEnvelopeSchema (JObject ((''safety_flags'', JArray [JString ''pii'']) # sample_envelope)) = Inr env"
    by (auto simp: success_iff_Inr)
  from omitted_safety_flags_default_empty [OF a b] a show ?thesis by simp
qed

section \<open>Properties of the ledger\<close>

lemma sequence_extend [simp]:
  "sequence (EventEnvelope.extend env (ReplayEvent.fields n)) = n"
  by (simp add: EventEnvelope.extend_def ReplayEvent.fields_def)

lemma well_sequenced_empty: "well_sequenced empty_ledger"
  by (simp add: well_sequenced_def empty_ledger_def)

lemma append_ledger_cases:
  "snd (append_ledger v L) = L
   \<or> (\<exists>env. EventEnvelopeSchema v = Inr env
        \<and> snd (append_ledger v L) =
            L(session_id env := L (session_id env)
                @ [EventEnvelope.extend env (ReplayEvent.fields (length (L (session_id env))))]))"
  by (cases "EventEnvelopeSchema v") (simp_all add: append_ledger_def Let_def)

lemma well_sequenced_append:
  assumes "well_sequenced L"
  shows "well_sequenced (snd (append_ledger v L))"
  using append_ledger_cases [of v L] assms
  by (auto simp: well_sequenced_def)

lemma well_sequenced_appends: "well_sequenced L \<Longrightarrow> well_sequenced (appends vs L)"
  by (induction vs arbitrary: L) (simp_all add: well_sequenced_append)

lemma append_ledger_keeps: "take (length (L sid)) (snd (append_ledger v L) sid) = L sid"
  using append_ledger_cases [of v L] by auto

lemma append_ledger_length: "length (L sid) \<le> length (snd (append_ledger v L) sid)"
  using append_ledger_cases [of v L] by auto

lemma appends_keeps:
  "length (L sid) \<le> length (appends vs L sid) \<and> take (length (L sid)) (appends vs L sid) = L sid"
proof (induction vs arbitrary: L)
  case Nil
  show ?case by simp
next
  case (Cons v vs)
  let ?M = "snd (append_ledger v L)"
  have a: "length (L sid) \<le> length (?M sid)" by (rule append_ledger_length)
  have b: "take (length (L sid)) (?M sid) = L sid" by (rule append_ledger_keeps)
  from Cons.IH [of ?M] have c: "length (?M sid) \<le> length (appends vs ?M sid)"
    and d: "take (length (?M sid)) (appends vs ?M sid) = ?M sid" by simp_all
  have "take (length (L sid)) (appends vs ?M sid)
      = take (length (L sid)) (take (length (?M sid)) (appends vs ?M sid))"
    using a by (simp add: min_def)
  also have "\<dots> = L sid" using b d by simp
  finally show ?case using a c by simp
qed

lemma appends_append: "appends (vs @ ws) L = appends ws (appends vs L)"
  by (induction vs arbitrary: L) simp_all

lemma filter_since:
  "map sequence xs = [k..<k + length xs] \<Longrightarrow>
   filter (\<lambda>e. s \<le> sequence e) xs = drop (s - k) xs"
proof (induction xs arbitrary: k)
  case Nil
  show ?case by simp
next
  case (Cons x xs)
  have e: "[k..<k + length (x # xs)] = k # [Suc k..<Suc k + length xs]"
    by (subst upt_rec) simp
  from Cons.prems have hd: "sequence x = k" and tl: "map sequence xs = [Suc k..<Suc k + length xs]"
    unfolding e by simp_all
  show ?case
  proof (cases "s \<le> k")
    case True
    with Cons.IH [OF tl] hd show ?thesis by simp
  next
    case False
    then have "s - k = Suc (s - Suc k)" by simp
    with Cons.IH [OF tl] hd False show ?thesis by simp
  qed
qed

lemma read_well_sequenced:
  assumes "well_sequenced L"
  shows "fst (read sid since lmt L) =
           (case lmt of None \<Rightarrow> drop since (L sid) | Some n \<Rightarrow> take n (drop since (L sid)))"
proof -
  have "map sequence (L sid) = [0..<0 + length (L sid)]"
    using assms by (simp add: well_sequenced_def)
  from filter_since [OF this, of since] show ?thesis
    by (simp add: read_def Let_def split: option.splits)
qed

lemma sorted_wrt_less_upt: "sorted_wrt (<) [i..<j]"
  by simp

lemma three_appends_length: "length (appends three_appends empty_ledger ''sess_123'') = 2"
  by (simp add: three_appends_def append_ledger_def sample_parsed negative_token_rejected
      empty_ledger_def Let_def)

text \<open>
  Claim C2.  In a ledger built by any run of appends, reading a session from the start
  returns records whose sequence values are \<open>0, 1, 2, \<dots>\<close> up to the number of
  records of the session: strictly increasing and contiguous.  The model has no
  operation that removes a record, so no gap arises and no tombstone is called for.
  Whatever further appends follow, the records read before are read again, unchanged
  and at the same positions: no appended envelope is mutated or deleted.
\<close>

theorem read_from_start_gap_free:
  "map sequence (fst (read sid 0 None (appends vs empty_ledger)))
     = [0..<length (appends vs empty_ledger sid)]
   \<and> sorted_wrt (<) (map sequence (fst (read sid 0 None (appends vs empty_ledger))))
   \<and> take (length (fst (read sid 0 None (appends vs empty_ledger))))
        (fst (read sid 0 None (appends (vs @ ws) empty_ledger)))
      = fst (read sid 0 None (appends vs empty_ledger))"
proof -
  let ?L = "appends vs empty_ledger"
  have wf: "well_sequenced ?L" "well_sequenced (appends ws ?L)"
    by (simp_all add: well_sequenced_appends well_sequenced_empty)
  have r: "fst (read sid 0 None ?L) = ?L sid"
    "fst (read sid 0 None (appends ws ?L)) = appends ws ?L sid"
    using wf by (simp_all add: read_well_sequenced)
  have s: "map sequence (?L sid) = [0..<length (?L sid)]"
    using wf(1) by (simp add: well_sequenced_def)
  show ?thesis
    unfolding appends_append r s using appends_keeps [of ?L sid ws] s by simp
qed

theorem read_from_start_gap_free_witness:
  "map sequence (fst (read ''sess_123'' 0 None (appends three_appends empty_ledger))) = [0, 1]"
  using read_from_start_gap_free [of "''sess_123''" three_appends "[]"]
  by (simp add: three_appends_length upt_rec)

text \<open>
  Claim C3.  A read leaves the ledger as it found it, so a second read with the same
  arguments returns the same result; the result is a contiguous slice of the session's
  records in ledger order (those from \<open>since\<close> on, cut at the limit), with strictly
  increasing sequence values.
\<close>

theorem read_idempotent_ordered:
  assumes "read sid since lmt (appends vs empty_ledger) = (evs, L')"
  shows "L' = appends vs empty_ledger
       \<and> read sid since lmt L' = (evs, L')
       \<and> sorted_wrt (<) (map sequence evs)
       \<and> evs = (case lmt of None \<Rightarrow> drop since (appends vs empty_ledger sid)
                 | Some n \<Rightarrow> take n (drop since (appends vs empty_ledger sid)))"
proof -
  let ?L = "appends vs empty_ledger"
  have wf: "well_sequenced ?L"
    by (simp add: well_sequenced_appends well_sequenced_empty)
  have L': "L' = ?L" using assms by (simp add: read_def Let_def)
  have evs: "evs = fst (read sid since lmt ?L)" using assms by simp
  have slice: "evs = (case lmt of None \<Rightarrow> drop since (?L sid) | Some n \<Rightarrow> take n (drop since (?L sid)))"
    unfolding evs using wf by (rule read_well_sequenced)
  have s: "map sequence (?L sid) = [0..<length (?L sid)]"
    using wf by (simp add: well_sequenced_def)
  have "sorted_wrt (<) (map sequence (drop since (?L sid)))"
    unfolding drop_map [symmetric] s by simp
  then have sorted: "sorted_wrt (<) (map sequence evs)"
    unfolding slice by (cases lmt) (simp_all add: take_map [symmetric])
  show ?thesis using L' assms slice sorted by simp
qed

theorem read_idempotent_ordered_witness:
  "\<exists>evs L'. read ''sess_123'' 1 (Some 5) (appends three_appends empty_ledger) = (evs, L')
      \<and> L' = appends three_appends empty_ledger
      \<and> read ''sess_123'' 1 (Some 5) L' = (evs, L')
      \<and> sorted_wrt (<) (map sequence evs)"
proof -
  obtain evs L' where r: "read ''sess_123'' 1 (Some 5) (appends three_appends empty_ledger) = (evs, L')"
    by (cases "read ''sess_123'' 1 (Some 5) (appends three_appends empty_ledger)")
  from read_idempotent_ordered [OF r] r show ?thesis by blast
qed

section \<open>Properties of the VALIDATED step\<close>

text \<open>
  Claim C5.  A packet with a decisions-log entry that has no supporting event id does
  not pass VALIDATED: the step ends in FAILED with reason ValidationError, records
  \<open>invariants_passed = False\<close>, and emits CONTEXT_HANDOFF_PACKET_BUILT followed by
  CONTEXT_HANDOFF_FAILED, never CONTEXT_HANDOFF_VALIDATED.
\<close>

theorem unsupported_decision_fails_validated:
  assumes "d \<in> set (decisions_log p)" and "supporting_event_ids d = []"
  shows "validate_step p =
           (FAILED ValidationError, p\<lparr>invariants_passed := False\<rparr>,
            [CONTEXT_HANDOFF_PACKET_BUILT, CONTEXT_HANDOFF_FAILED ValidationError])"
proof -
  have "\<not> list_all (\<lambda>d. supporting_event_ids d \<noteq> []) (decisions_log p)"
    using assms by (auto simp: list_all_iff)
  then have "\<not> check_invariants p"
    by (simp add: check_invariants_def evidence_grounded_def)
  then show ?thesis
    by (simp add: validate_step_def Let_def)
qed

theorem unsupported_decision_fails_validated_witness:
  "fst (validate_step unsupported_decision_packet) = FAILED ValidationError
   \<and> fst (snd (validate_step unsupported_decision_packet))
       = unsupported_decision_packet\<lparr>invariants_passed := False\<rparr>"
proof -
  let ?d = "\<lparr> decision = ''skip cache'', rationale = ''later'', supporting_event_ids = [] \<rparr>"
  have a: "?d \<in> set (decisions_log unsupported_decision_packet)"
    by (simp add: unsupported_decision_packet_def)
  have b: "supporting_event_ids ?d = []" by simp
  from unsupported_decision_fails_validated [OF a b] show ?thesis by simp
qed

section \<open>Properties of pagination\<close>

text \<open>
  Claim C7.  A page's \<open>next_offset\<close> is null exactly when the page reaches the end
  of the events after \<open>since\<close>, and otherwise is the offset just past the page; the
  three guarantees are boolean fields of the response.  For any response the console
  offers Next exactly when \<open>next_offset\<close> is not null, and a click on Next sets the
  offset to \<open>next_offset\<close>.
\<close>

theorem pagination_next_offset:
  "(next_offset (events_page sid since after off lmt raw_mode) = None
      \<longleftrightarrow> length after \<le> off + length (events (events_page sid since after off lmt raw_mode)))
   \<and> (next_offset (events_page sid since after off lmt raw_mode) = None
      \<or> next_offset (events_page sid since after off lmt raw_mode)
           = Some (off + length (events (events_page sid since after off lmt raw_mode))))
   \<and> events (events_page sid since after off lmt raw_mode) = take lmt (drop off after)
   \<and> (canNext \<lparr>offset = cur, eventsPage = Some r\<rparr> \<longleftrightarrow> next_offset r \<noteq> None)
   \<and> offset (click_next \<lparr>offset = cur, eventsPage = Some r\<rparr>)
        = (case next_offset r of None \<Rightarrow> cur | Some n \<Rightarrow> n)"
  by (auto simp: events_page_def Let_def canNext_def click_next_def onNext_def split: option.splits)

theorem pagination_next_offset_witness:
  "next_offset (events_page ''sess_123'' None (map numbered [0..<3]) 0 2 False) = Some 2
   \<and> next_offset (events_page ''sess_123'' None (map numbered [0..<3]) 2 2 False) = None
   \<and> offset (click_next \<lparr>offset = 0, eventsPage = Some (events_page ''sess_123'' None (map numbered [0..<3]) 0 2 False)\<rparr>) = 2"
  using pagination_next_offset [of "''sess_123''" None "map numbered [0..<3]" 0 2 False 0
      "events_page ''sess_123'' None (map numbered [0..<3]) 0 2 False"]
    pagination_next_offset [of "''sess_123''" None "map numbered [0..<3]" 2 2 False 0
      "events_page ''sess_123'' None (map numbered [0..<3]) 0 2 False"]
  by (auto simp: min_def)

section \<open>Properties of fetchJson\<close>

lemma buildUrl_plain:
  "buildUrl plain_path_URL ''/api/v1'' ''http://localhost:5173'' ''/logs/sessions'' None
     = Inr ''/api/v1/logs/sessions''"
  by (simp add: buildUrl_def plain_path_URL_def search_def)

text \<open>
  Claim C6, as amended.  \<^verbatim>\<open>fetchJson\<close> does not retry: it sends at most one request
  and its result depends on the outcome of that request alone.  It returns a value only
  when that request resolved with an OK response whose body is JSON; a non-OK response
  is thrown as an Error carrying the status, the status text and the first 500
  characters of the body, and a rejected request is thrown as well.  No failed read is
  swallowed.
\<close>

theorem fetchJson_single_request:
  "snd (fetchJson new_URL api_base window_origin net n path params) \<le> Suc n
   \<and> ((\<exists>v. fst (fetchJson new_URL api_base window_origin net n path params) = Inr v) \<longleftrightarrow>
        (\<exists>url r. buildUrl new_URL api_base window_origin path params = Inr url
           \<and> net n url = Resolved r \<and> ok r \<and> json r \<noteq> None))
   \<and> (\<forall>url r. buildUrl new_URL api_base window_origin path params = Inr url
           \<and> net n url = Resolved r \<and> \<not> ok r \<longrightarrow>
         fetchJson new_URL api_base window_origin net n path params
           = (Inl (Error (show_nat (status r) @ '' '' @ statusText r @ '': '' @ take 500 (body r))),
              Suc n))
   \<and> (\<forall>url msg. buildUrl new_URL api_base window_origin path params = Inr url
           \<and> net n url = Rejected msg \<longrightarrow>
         fetchJson new_URL api_base window_origin net n path params = (Inl (TypeError msg), Suc n))
   \<and> (\<forall>net'. (\<forall>url. net' n url = net n url) \<longrightarrow>
         fetchJson new_URL api_base window_origin net' n path params
           = fetchJson new_URL api_base window_origin net n path params)"
  by (auto simp: fetchJson_def split: sum.splits fetch_result.splits option.splits)

text \<open>
  The claim as first stated fails: the backend below is busy on the first request and
  would answer the second, yet \<^verbatim>\<open>fetchJson\<close> stops after one request and throws.
\<close>

theorem transient_error_not_retried:
  "fetchJson plain_path_URL ''/api/v1'' ''http://localhost:5173'' busy_once 0 ''/logs/sessions'' None
     = (Inl (Error ''503 Service Unavailable: ledger busy''), 1)
   \<and> busy_once 1 ''/api/v1/logs/sessions''
     = Resolved \<lparr> ok = True, status = 200, statusText = ''OK'', body = ''{}'',
                   json = Some (JObject []) \<rparr>"
  by (simp add: fetchJson_def buildUrl_plain busy_once_def digit_def)

theorem fetchJson_single_request_witness:
  "snd (fetchJson plain_path_URL ''/api/v1'' ''http://localhost:5173'' busy_once 0 ''/logs/sessions'' None) \<le> 1
   \<and> fetchJson plain_path_URL ''/api/v1'' ''http://localhost:5173'' busy_once 0 ''/logs/sessions'' None
       = (Inl (Error ''503 Service Unavailable: ledger busy''), 1)"
proof -
  have b: "busy_once 0 ''/api/v1/logs/sessions''
      = Resolved \<lparr> ok = False, status = 503, statusText = ''Service Unavailable'',
                    body = ''ledger busy'', json = None \<rparr>"
    by (simp add: busy_once_def)
  from fetchJson_single_request [of plain_path_URL "''/api/v1''" "''http://localhost:5173''"
      busy_once 0 "''/logs/sessions''" None] buildUrl_plain b
  show ?thesis by (simp add: digit_def)
qed

section \<open>Properties of buildUrl\<close>

lemma set_params_Nil [simp]: "set_params [] u = u"
  by (simp add: set_params_def)

lemma set_params_Cons:
  "set_params ((k, v) # ps) u =
     set_params ps (if v = QUndefined \<or> v = QNull then u else searchParams_set k (js_String v) u)"
  by (simp add: set_params_def)

lemma set_params_supplied: "set_params ps u = set_params (supplied ps) u"
  by (induction ps arbitrary: u) (auto simp: set_params_Cons supplied_def)

lemma searchParams_set_fields [simp]:
  "pathname (searchParams_set k v u) = pathname u"
  "origin (searchParams_set k v u) = origin u"
  "hash (searchParams_set k v u) = hash u"
  "searchParams (searchParams_set k v u) = set_pair k v (searchParams u)"
  by (simp_all add: searchParams_set_def Let_def)

lemma set_params_pathname [simp]: "pathname (set_params ps u) = pathname u"
  by (induction ps arbitrary: u) (auto simp: set_params_Cons)

lemma set_pair_not_Nil [simp]: "set_pair k v ps \<noteq> []"
  by (induction k v ps rule: set_pair.induct) simp_all

lemma set_params_not_Nil: "searchParams u \<noteq> [] \<Longrightarrow> searchParams (set_params ps u) \<noteq> []"
proof (induction ps arbitrary: u)
  case Nil
  then show ?case by simp
next
  case (Cons p ps)
  obtain k v where p: "p = (k, v)" by (cases p)
  show ?case
  proof (cases "v = QUndefined \<or> v = QNull")
    case True
    then have "set_params (p # ps) u = set_params ps u"
      unfolding p set_params_Cons by simp
    with Cons.IH [OF Cons.prems] show ?thesis by simp
  next
    case False
    then have e: "set_params (p # ps) u = set_params ps (searchParams_set k (js_String v) u)"
      unfolding p set_params_Cons by simp
    have "searchParams (searchParams_set k (js_String v) u) \<noteq> []" by simp
    from Cons.IH [OF this] show ?thesis unfolding e .
  qed
qed

lemma join_amp_not_Nil: "xs \<noteq> [] \<Longrightarrow> hd xs \<noteq> [] \<Longrightarrow> join_amp xs \<noteq> []"
  by (induction xs rule: join_amp.induct) auto

lemma serialize_not_Nil: "ps \<noteq> [] \<Longrightarrow> serialize ps \<noteq> []"
  unfolding serialize_def
  by (rule join_amp_not_Nil) (auto simp: hd_map split: prod.splits)

lemma search_searchParams_set:
  "search (searchParams_set k v u) = CHR ''?'' # serialize (set_pair k v (searchParams u))"
  by (simp add: searchParams_set_def Let_def search_def serialize_not_Nil)

lemma query_searchParams_set:
  "query (searchParams_set k v u) = Some (serialize (searchParams (searchParams_set k v u)))"
  by (simp add: searchParams_set_def Let_def serialize_not_Nil)

lemma set_params_query:
  "query u = Some (serialize (searchParams u)) \<Longrightarrow>
   query (set_params ps u) = Some (serialize (searchParams (set_params ps u)))"
  by (induction ps arbitrary: u) (auto simp: set_params_Cons query_searchParams_set)

lemma set_params_search:
  "search (set_params ps u) =
     (if supplied ps = [] then search u
      else CHR ''?'' # serialize (searchParams (set_params ps u)))"
proof (induction ps arbitrary: u)
  case Nil
  show ?case by (simp add: supplied_def)
next
  case (Cons p ps)
  obtain k v where p: "p = (k, v)" by (cases p)
  show ?case
  proof (cases "v = QUndefined \<or> v = QNull")
    case True
    then have "supplied (p # ps) = supplied ps" by (auto simp: supplied_def p)
    with True Cons.IH [of u] show ?thesis by (auto simp: p set_params_Cons)
  next
    case False
    let ?u = "searchParams_set k (js_String v) u"
    have q: "query (set_params ps ?u) = Some (serialize (searchParams (set_params ps ?u)))"
      by (rule set_params_query) (rule query_searchParams_set)
    have ne: "searchParams (set_params ps ?u) \<noteq> []"
      by (rule set_params_not_Nil) simp
    have "supplied (p # ps) \<noteq> []" using False by (auto simp: supplied_def p)
    moreover have "search (set_params ps ?u) = CHR ''?'' # serialize (searchParams (set_params ps ?u))"
      using q ne by (simp add: search_def serialize_not_Nil)
    ultimately show ?thesis using False by (auto simp: p set_params_Cons)
  qed
qed

lemma named_filter_other:
  "k' \<noteq> k \<Longrightarrow> named k' (filter (\<lambda>(a, b). a \<noteq> k) ps) = named k' ps"
  by (induction ps) (auto simp: named_def)

lemma named_filter_same: "named k (filter (\<lambda>(a, b). a \<noteq> k) ps) = []"
  by (induction ps) (auto simp: named_def)

lemma named_Cons: "named k ((a, b) # ps) = (if a = k then (a, b) # named k ps else named k ps)"
  by (simp add: named_def)

lemma named_Nil: "named k [] = []"
  by (simp add: named_def)

lemma named_set_pair_other: "k' \<noteq> k \<Longrightarrow> named k' (set_pair k v ps) = named k' ps"
  by (induction k v ps rule: set_pair.induct) (simp_all add: named_Cons named_Nil named_filter_other)

lemma named_set_pair_same: "named k (set_pair k v ps) = [(k, v)]"
  by (induction k v ps rule: set_pair.induct) (simp_all add: named_Cons named_Nil named_filter_same)

lemma named_set_params_absent:
  "k \<notin> fst ` set (supplied ps) \<Longrightarrow>
   named k (searchParams (set_params ps u)) = named k (searchParams u)"
proof (induction ps arbitrary: u)
  case Nil
  show ?case by simp
next
  case (Cons p ps)
  obtain k' v where p: "p = (k', v)" by (cases p)
  show ?case
  proof (cases "v = QUndefined \<or> v = QNull")
    case True
    with Cons show ?thesis by (auto simp: p set_params_Cons supplied_def)
  next
    case False
    with Cons.prems have "k \<noteq> k'" and "k \<notin> fst ` set (supplied ps)"
      by (auto simp: p supplied_def)
    with Cons.IH [of "searchParams_set k' (js_String v) u"] False show ?thesis
      by (simp add: p set_params_Cons named_set_pair_other)
  qed
qed

lemma named_set_params_present:
  "distinct (map fst ps) \<Longrightarrow> (k, v) \<in> set (supplied ps) \<Longrightarrow>
   named k (searchParams (set_params ps u)) = [(k, js_String v)]"
proof (induction ps arbitrary: u)
  case Nil
  then show ?case by (simp add: supplied_def)
next
  case (Cons p ps)
  obtain k' v' where p: "p = (k', v')" by (cases p)
  from Cons.prems(1) have d: "distinct (map fst ps)" and fresh: "k' \<notin> fst ` set ps"
    by (simp_all add: p)
  show ?case
  proof (cases "(k, v) \<in> set (supplied ps)")
    case True
    from Cons.IH [OF d True] show ?thesis by (simp add: p set_params_Cons)
  next
    case False
    with Cons.prems(2) have kv: "k = k'" "v = v'" and sup: "v' \<noteq> QUndefined \<and> v' \<noteq> QNull"
      by (auto simp: p supplied_def split: if_splits)
    have "k' \<notin> fst ` set (supplied ps)" using fresh by (auto simp: supplied_def)
    from named_set_params_absent [OF this, of "searchParams_set k' (js_String v') u"] sup kv
    show ?thesis by (simp add: p set_params_Cons named_set_pair_same)
  qed
qed

lemma searchParams_set_origin:
  "searchParams_set k v (u\<lparr>origin := other\<rparr>) = (searchParams_set k v u)\<lparr>origin := other\<rparr>"
  by (simp add: searchParams_set_def Let_def)

lemma set_params_origin:
  "set_params ps (u\<lparr>origin := other\<rparr>) = (set_params ps u)\<lparr>origin := other\<rparr>"
proof (induction ps arbitrary: u)
  case Nil
  show ?case by simp
next
  case (Cons p ps)
  obtain k v where p: "p = (k, v)" by (cases p)
  show ?case
    unfolding p set_params_Cons
    by (cases "v = QUndefined \<or> v = QNull") (simp_all only: if_True if_False searchParams_set_origin Cons.IH)
qed

lemma search_origin [simp]: "search (u\<lparr>origin := other\<rparr>) = search u"
  by (simp add: search_def)

text \<open>
  Claim C10.  Let the URL constructor succeed with \<open>u\<close>, and let the parameter record
  have distinct keys, as the entries of an object do.  Then \<^verbatim>\<open>buildUrl\<close> returns the
  pathname of \<open>u\<close> followed by the search string and nothing else.  The search string
  is that of \<open>u\<close> when every entry is null or undefined, and otherwise \<open>?\<close> followed
  by the serialized search parameters.  Among these, an entry whose value is null or
  undefined leaves the pairs of its name as the URL had them (it adds nothing), and
  every other entry is the one pair of its name, with the value rendered by
  \<^verbatim>\<open>String\<close>; the null and undefined entries can be dropped from the record without
  changing the result.  The origin of the URL has no influence on the returned string.
\<close>

theorem buildUrl_query_string:
  assumes "new_URL (api_base @ path) window_origin = Some u"
    and "distinct (map fst ps)"
  shows "buildUrl new_URL api_base window_origin path (Some ps)
           = Inr (pathname u @ search (set_params ps u))
       \<and> search (set_params ps u)
           = (if supplied ps = [] then search u
              else CHR ''?'' # serialize (searchParams (set_params ps u)))
       \<and> (\<forall>(k, v) \<in> set ps.
             named k (searchParams (set_params ps u))
               = (if v = QNull \<or> v = QUndefined then named k (searchParams u)
                  else [(k, js_String v)]))
       \<and> buildUrl new_URL api_base window_origin path (Some ps)
           = buildUrl new_URL api_base window_origin path (Some (supplied ps))
       \<and> buildUrl new_URL api_base window_origin path None = Inr (pathname u @ search u)
       \<and> buildUrl (\<lambda>input base. map_option (\<lambda>x. x\<lparr>origin := other\<rparr>) (new_URL input base))
             api_base window_origin path (Some ps)
           = buildUrl new_URL api_base window_origin path (Some ps)"
proof -
  have entry: "named k (searchParams (set_params ps u))
        = (if v = QNull \<or> v = QUndefined then named k (searchParams u) else [(k, js_String v)])"
    if kv: "(k, v) \<in> set ps" for k v
  proof (cases "v = QNull \<or> v = QUndefined")
    case True
    have "k \<notin> fst ` set (supplied ps)"
    proof
      assume "k \<in> fst ` set (supplied ps)"
      then obtain v' where v': "(k, v') \<in> set ps" "v' \<noteq> QUndefined \<and> v' \<noteq> QNull"
        by (auto simp: supplied_def)
      from assms(2) kv v'(1) have "v = v'" by (rule eq_key_imp_eq_value)
      with True v'(2) show False by auto
    qed
    from named_set_params_absent [OF this] True show ?thesis by simp
  next
    case False
    with kv have "(k, v) \<in> set (supplied ps)" by (auto simp: supplied_def)
    from named_set_params_present [OF assms(2) this] False show ?thesis by simp
  qed
  have b: "buildUrl new_URL api_base window_origin path (Some qs)
      = Inr (pathname u @ search (set_params qs u))" for qs
    using assms(1) by (simp add: buildUrl_def)
  have c: "buildUrl new_URL api_base window_origin path None = Inr (pathname u @ search u)"
    using assms(1) by (simp add: buildUrl_def)
  have d: "buildUrl (\<lambda>input base. map_option (\<lambda>x. x\<lparr>origin := other\<rparr>) (new_URL input base))
             api_base window_origin path (Some ps)
           = Inr (pathname u @ search (set_params ps u))"
    using assms(1) by (simp add: buildUrl_def set_params_origin)
  show ?thesis
    using entry set_params_search [of ps u] set_params_supplied [of ps u]
    unfolding b c d by auto
qed

theorem buildUrl_query_string_witness:
  "buildUrl plain_path_URL (API_BASE None) ''http://localhost:5173''
     ''/logs/sessions/sess_123/events'' (Some console_query)
   = Inr ''/api/v1/logs/sessions/sess_123/events?raw=false&limit=50&offset=0''"
proof -
  let ?u = "\<lparr> origin = ''http://localhost:5173'',
              pathname = API_BASE None @ ''/logs/sessions/sess_123/events'',
              query = None, searchParams = [], hash = [] \<rparr>"
  have a: "plain_path_URL (API_BASE None @ ''/logs/sessions/sess_123/events'') ''http://localhost:5173''
      = Some ?u"
    by (simp add: plain_path_URL_def)
  have b: "distinct (map fst console_query)"
    by (simp add: console_query_def)
  have s: "search (set_params console_query ?u) = ''?raw=false&limit=50&offset=0''"
    by (simp add: console_query_def set_params_def searchParams_set_def search_def serialize_def
        urlencode_def urlencode_byte_def show_int_def digit_def Let_def)
  have r: "buildUrl plain_path_URL (API_BASE None) ''http://localhost:5173''
              ''/logs/sessions/sess_123/events'' (Some console_query)
           = Inr (pathname ?u @ search (set_params console_query ?u))"
    by (rule buildUrl_query_string [where new_URL = plain_path_URL and api_base = "API_BASE None"
          and path = "''/logs/sessions/sess_123/events''"
          and window_origin = "''http://localhost:5173''"
          and u = "?u" and ps = console_query, OF a b, THEN conjunct1])
  show ?thesis
    unfolding r s by (simp add: API_BASE_def)
qed

end
